theory Spec2Isabelle
  imports Complex_Main "HOL-Library.Sublist" "HOL-Library.AList" "HOL-Library.Log_Nat"
begin

section \<open>The CSV validation and typing engine (src/services/csvValidation.ts)\<close>

subsection \<open>Strings\<close>

text \<open>
  A JavaScript string is a sequence of code units. The model is \<^typ>\<open>string\<close>: each
  \<^typ>\<open>char\<close> stands for the code unit of the same number, so the strings covered are
  those over U+0000 .. U+00FF. On that range \<open>toLowerCase\<close> maps A-Z and the
  capital letters U+00C0 .. U+00DE (without the multiplication sign U+00D7) 32
  code units up, and the white space that \<open>trim\<close> and the regular expression class
  \<open>\s\<close> recognise is TAB, LF, VT, FF, CR, SPACE and NBSP.
\<close>

definition isWhiteSpace :: "char \<Rightarrow> bool" where
  "isWhiteSpace c = (of_char c \<in> {9, 10, 11, 12, 13, 32, 160 :: nat})"

definition trim :: "string \<Rightarrow> string" where
  "trim s = rev (dropWhile isWhiteSpace (rev (dropWhile isWhiteSpace s)))"

definition lowerChar :: "char \<Rightarrow> char" where
  "lowerChar c =
     (let n = of_char c :: nat
      in if (65 \<le> n \<and> n \<le> 90) \<or> (192 \<le> n \<and> n \<le> 222 \<and> n \<noteq> 215)
         then char_of (n + 32) else c)"

definition toLowerCase :: "string \<Rightarrow> string" where
  "toLowerCase s = map lowerChar s"

text \<open>\<open>s.includes(t)\<close>: \<open>t\<close> occurs in \<open>s\<close> as a contiguous run of code units.\<close>

definition includesStr :: "string \<Rightarrow> string \<Rightarrow> bool" where
  "includesStr s t = sublist t s"

text \<open>
  \<open>s.split(c)\<close> for a one-character separator: the pieces between the occurrences
  of \<open>c\<close>; a string without \<open>c\<close> (the empty one too) is one piece.
\<close>

fun split :: "char \<Rightarrow> string \<Rightarrow> string list" where
  "split c [] = [[]]"
| "split c (x # xs) =
     (if x = c then [] # split c xs
      else (case split c xs of
              [] \<Rightarrow> [[x]]
            | p # ps \<Rightarrow> (x # p) # ps))"

text \<open>\<open>xs.join(sep)\<close>.\<close>

fun join :: "string \<Rightarrow> string list \<Rightarrow> string" where
  "join sep [] = []"
| "join sep [x] = x"
| "join sep (x # y # ys) = x @ sep @ join sep (y # ys)"

subsection \<open>Column type inference (CSVValidator.detectColumnTypes)\<close>

text \<open>
  The body of the \<open>forEach\<close> in \<open>detectColumnTypes\<close>: the type stored for one column.
  Types are the strings the source stores in \<open>columnTypes\<close>.
\<close>

definition inferType :: "string \<Rightarrow> string" where
  "inferType col =
     (let lowerCol = toLowerCase col
      in if includesStr lowerCol ''email'' then ''email''
         else if includesStr lowerCol ''date'' \<or> includesStr lowerCol ''time'' then ''date''
         else if includesStr lowerCol ''price'' \<or> includesStr lowerCol ''amount''
                 \<or> includesStr lowerCol ''cost'' then ''number''
         else if includesStr lowerCol ''active'' \<or> includesStr lowerCol ''enabled'' then ''boolean''
         else ''string'')"

text \<open>
  \<open>detectColumnTypes\<close>: the record \<open>columnTypes\<close> after the loop over the columns,
  as an association list in insertion order; a column name that occurs again
  overwrites its entry in place.
\<close>

definition detectColumnTypes :: "string list \<Rightarrow> (string \<times> string) list" where
  "detectColumnTypes columns =
     fold (\<lambda>col columnTypes. AList.update col (inferType col) columnTypes) columns []"

subsection \<open>Numbers (the built-in \<open>parseFloat\<close>)\<close>

text \<open>
  A Number value: NaN, the two infinities, negative zero, or a finite binary64
  value, held as the rational it is equal to (\<open>Finite 0\<close> is positive zero).
\<close>

datatype jsnumber = NaN | PosInfinity | NegInfinity | NegZero | Finite rat

definition pow2 :: "int \<Rightarrow> rat" where
  "pow2 k = (if 0 \<le> k then 2 ^ nat k else 1 / 2 ^ nat (- k))"

definition pow10 :: "int \<Rightarrow> rat" where
  "pow10 k = (if 0 \<le> k then 10 ^ nat k else 1 / 10 ^ nat (- k))"

definition roundHalfEven :: "rat \<Rightarrow> int" where
  "roundHalfEven x =
     (let f = \<lfloor>x\<rfloor>; d = x - of_int f
      in if d < 1 / 2 then f
         else if 1 / 2 < d then f + 1
         else if even f then f else f + 1)"

text \<open>
  The binary64 value nearest to a positive rational, ties to the even significand:
  53 significant bits, the unit in the last place never below \<open>2^-1074\<close>, and
  infinity from \<open>2^1024\<close> on. The result is \<open>None\<close> for infinity.
\<close>

definition roundBinary64 :: "rat \<Rightarrow> rat option" where
  "roundBinary64 q =
     (let (a, b) = quotient_of q;
          k = bitlen a - bitlen b;
          e = (if pow2 k \<le> q then k else k - 1);
          p = max (e - 52) (- 1074);
          r = of_int (roundHalfEven (q / pow2 p)) * pow2 p
      in if pow2 1024 \<le> r then None else Some r)"

text \<open>The Number value of a signed mathematical value \<open>q \<ge> 0\<close>.\<close>

definition numberValue :: "bool \<Rightarrow> rat \<Rightarrow> jsnumber" where
  "numberValue negative q =
     (case (if q = 0 then Some 0 else roundBinary64 q) of
        None \<Rightarrow> (if negative then NegInfinity else PosInfinity)
      | Some r \<Rightarrow> (if negative then (if r = 0 then NegZero else Finite (- r)) else Finite r))"

definition isDigit :: "char \<Rightarrow> bool" where
  "isDigit c = (48 \<le> (of_char c :: nat) \<and> (of_char c :: nat) \<le> 57)"

definition digitsValue :: "string \<Rightarrow> int" where
  "digitsValue ds = foldl (\<lambda>acc c. 10 * acc + (of_char c - 48)) 0 ds"

text \<open>
  \<open>ExponentPart\<close> at the head of \<open>s\<close>: \<open>e\<close> or \<open>E\<close>, an optional sign and at least
  one digit. Returns the exponent and what follows it; without an exponent part
  the exponent is 0 and nothing is consumed.
\<close>

definition scanExponent :: "string \<Rightarrow> int \<times> string" where
  "scanExponent s =
     (case s of
        [] \<Rightarrow> (0, s)
      | c # t \<Rightarrow>
          if c = CHR ''e'' \<or> c = CHR ''E'' then
            (let (negative, u) =
                   (case t of
                      [] \<Rightarrow> (False, t)
                    | d # t' \<Rightarrow> if d = CHR ''-'' then (True, t')
                                else if d = CHR ''+'' then (False, t') else (False, t));
                 ds = takeWhile isDigit u
             in if ds = [] then (0, s)
                else ((if negative then - digitsValue ds else digitsValue ds),
                      dropWhile isDigit u))
          else (0, s))"

text \<open>
  The longest \<open>StrUnsignedDecimalLiteral\<close> at the head of \<open>s\<close>: \<open>Infinity\<close>, or
  digits with an optional fraction and exponent (\<open>1\<close>, \<open>1.\<close>, \<open>1.5\<close>, \<open>.5\<close>, each
  with an optional exponent part). Returns its mathematical value (\<open>None\<close> for
  \<open>Infinity\<close>) and the rest of the string; \<open>None\<close> when no prefix is a literal.
\<close>

definition scanUnsigned :: "string \<Rightarrow> (rat option \<times> string) option" where
  "scanUnsigned s =
     (if prefix ''Infinity'' s then Some (None, drop 8 s)
      else
        (let ip = takeWhile isDigit s;
             r1 = dropWhile isDigit s;
             (fp, r2) =
               (case r1 of
                  [] \<Rightarrow> ([], r1)
                | c # t \<Rightarrow>
                    if c = CHR ''.'' \<and> \<not> (ip = [] \<and> takeWhile isDigit t = [])
                    then (takeWhile isDigit t, dropWhile isDigit t)
                    else ([], r1))
         in if ip = [] \<and> fp = [] then None
            else
              (let (ex, r3) = scanExponent r2
               in Some (Some (of_int (digitsValue (ip @ fp)) * pow10 (ex - int (length fp))),
                        r3))))"

text \<open>
  The longest \<open>StrDecimalLiteral\<close> at the head of \<open>s\<close> after leading white space:
  an optional sign and an unsigned literal. Returns the Number value and the
  unparsed rest; \<open>None\<close> when no prefix is a literal.
\<close>

definition scanDecimalLiteral :: "string \<Rightarrow> (jsnumber \<times> string) option" where
  "scanDecimalLiteral s =
     (let t = dropWhile isWhiteSpace s;
          (negative, u) =
            (case t of
               [] \<Rightarrow> (False, t)
             | c # t' \<Rightarrow> if c = CHR ''-'' then (True, t')
                         else if c = CHR ''+'' then (False, t') else (False, t))
      in case scanUnsigned u of
           None \<Rightarrow> None
         | Some (None, rest) \<Rightarrow> Some (if negative then NegInfinity else PosInfinity, rest)
         | Some (Some q, rest) \<Rightarrow> Some (numberValue negative q, rest))"

definition parseFloat :: "string \<Rightarrow> jsnumber" where
  "parseFloat s = (case scanDecimalLiteral s of None \<Rightarrow> NaN | Some (n, rest) \<Rightarrow> n)"

definition isNaN :: "jsnumber \<Rightarrow> bool" where
  "isNaN n = (n = NaN)"

subsection \<open>Regular expressions (the e-mail pattern)\<close>

text \<open>
  The fragment of regular expressions that the e-mail pattern uses: a character
  class, concatenation and \<open>+\<close>. \<open>test\<close> is matching of the whole string, as the
  pattern is anchored with \<open>^\<close> and \<open>$\<close>; it is computed with derivatives.
\<close>

datatype regex =
    Zero
  | Eps
  | Class "char \<Rightarrow> bool"
  | Seq regex regex
  | Alt regex regex
  | Star regex

definition PlusRe :: "regex \<Rightarrow> regex" where
  "PlusRe r = Seq r (Star r)"

fun nullable :: "regex \<Rightarrow> bool" where
  "nullable Zero = False"
| "nullable Eps = True"
| "nullable (Class P) = False"
| "nullable (Seq r s) = (nullable r \<and> nullable s)"
| "nullable (Alt r s) = (nullable r \<or> nullable s)"
| "nullable (Star r) = True"

fun deriv :: "char \<Rightarrow> regex \<Rightarrow> regex" where
  "deriv c Zero = Zero"
| "deriv c Eps = Zero"
| "deriv c (Class P) = (if P c then Eps else Zero)"
| "deriv c (Seq r s) =
     (if nullable r then Alt (Seq (deriv c r) s) (deriv c s) else Seq (deriv c r) s)"
| "deriv c (Alt r s) = Alt (deriv c r) (deriv c s)"
| "deriv c (Star r) = Seq (deriv c r) (Star r)"

definition test :: "regex \<Rightarrow> string \<Rightarrow> bool" where
  "test r s = nullable (foldl (\<lambda>r c. deriv c r) r s)"

text \<open>\<open>/^[^\s@]+@[^\s@]+\.[^\s@]+$/\<close>\<close>

definition emailRegex :: regex where
  "emailRegex =
     (let notSpaceAt = Class (\<lambda>c. \<not> isWhiteSpace c \<and> c \<noteq> CHR ''@'')
      in Seq (PlusRe notSpaceAt)
           (Seq (Class (\<lambda>c. c = CHR ''@''))
              (Seq (PlusRe notSpaceAt)
                 (Seq (Class (\<lambda>c. c = CHR ''.'')) (PlusRe notSpaceAt)))))"

subsection \<open>Cell validation (CSVValidator.validateValue)\<close>

text \<open>What \<open>cleanedValue: any\<close> holds: null, a boolean, a number or a string.\<close>

datatype jsvalue = VNull | VBool bool | VNumber jsnumber | VString string

record ValidationResult =
  isValid :: bool
  errors :: "string list"
  cleanedValue :: jsvalue
  type :: string

text \<open>
  How \<open>new Date(s)\<close> reads a string that is not in the ISO format is left to the
  engine, so date parsing is a parameter of the model: \<open>None\<close> when
  \<open>getTime()\<close> of the parsed date is NaN, otherwise the date's \<open>toISOString()\<close>.
\<close>

type_synonym dateParser = "string \<Rightarrow> string option"

definition validateValue :: "dateParser \<Rightarrow> string \<Rightarrow> string \<Rightarrow> ValidationResult" where
  "validateValue parseDate value expectedType =
     (let cleanedValue = trim value
      in if cleanedValue = [] then
           \<lparr>isValid = False, errors = [''Missing value''], cleanedValue = VNull,
            type = expectedType\<rparr>
         else if expectedType = ''number'' then
           (let numValue = parseFloat cleanedValue
            in if isNaN numValue then
                 \<lparr>isValid = False, errors = [''Invalid number format''],
                  cleanedValue = VString cleanedValue, type = expectedType\<rparr>
               else
                 \<lparr>isValid = True, errors = [], cleanedValue = VNumber numValue,
                  type = expectedType\<rparr>)
         else if expectedType = ''email'' then
           (if \<not> test emailRegex cleanedValue then
              \<lparr>isValid = False, errors = [''Invalid email format''],
               cleanedValue = VString cleanedValue, type = expectedType\<rparr>
            else
              \<lparr>isValid = True, errors = [], cleanedValue = VString cleanedValue,
               type = expectedType\<rparr>)
         else if expectedType = ''date'' then
           (case parseDate cleanedValue of
              None \<Rightarrow>
                \<lparr>isValid = False, errors = [''Invalid date format''],
                 cleanedValue = VString cleanedValue, type = expectedType\<rparr>
            | Some isoString \<Rightarrow>
                \<lparr>isValid = True, errors = [], cleanedValue = VString isoString,
                 type = expectedType\<rparr>)
         else if expectedType = ''boolean'' then
           (let lowerValue = toLowerCase cleanedValue
            in if lowerValue \<in> set [''true'', ''1'', ''yes'', ''on''] then
                 \<lparr>isValid = True, errors = [], cleanedValue = VBool True,
                  type = expectedType\<rparr>
               else if lowerValue \<in> set [''false'', ''0'', ''no'', ''off''] then
                 \<lparr>isValid = True, errors = [], cleanedValue = VBool False,
                  type = expectedType\<rparr>
               else
                 \<lparr>isValid = False, errors = [''Invalid boolean value''],
                  cleanedValue = VString cleanedValue, type = expectedType\<rparr>)
         else if expectedType = ''string'' then
           (if length cleanedValue > 1000 then
              \<lparr>isValid = False, errors = [''String too long (max 1000 characters)''],
               cleanedValue = VString cleanedValue, type = expectedType\<rparr>
            else
              \<lparr>isValid = True, errors = [], cleanedValue = VString cleanedValue,
               type = expectedType\<rparr>)
         else
           \<lparr>isValid = True, errors = [], cleanedValue = VString cleanedValue,
            type = expectedType\<rparr>)"

subsection \<open>Row validation (CSVValidator.validateRow)\<close>

text \<open>
  \<open>JSON.stringify(cleanedData)\<close> is modelled by the document it prints rather than
  by its text: the members of the object in property order, each value as the
  JSON token it becomes. A string prints as a string, a boolean as itself, a finite
  number as a number (negative zero as \<open>0\<close>), and \<open>null\<close> and the infinities as
  \<open>null\<close>. The text is determined by this document and determines it.
\<close>

datatype json = JNull | JBool bool | JNumber rat | JString string

fun jsonValue :: "jsvalue \<Rightarrow> json" where
  "jsonValue VNull = JNull"
| "jsonValue (VBool b) = JBool b"
| "jsonValue (VString s) = JString s"
| "jsonValue (VNumber (Finite q)) = JNumber q"
| "jsonValue (VNumber NegZero) = JNumber 0"
| "jsonValue (VNumber n) = JNull"

definition JSON_stringify :: "(string \<times> jsvalue) list \<Rightarrow> (string \<times> json) list" where
  "JSON_stringify obj = map (\<lambda>(k, v). (k, jsonValue v)) obj"

record RowValidationResult =
  rowNumber :: nat
  data :: "(string \<times> jsvalue) list"
  errors :: "string list"
  isDuplicate :: bool
  isValid :: bool

text \<open>
  The validator object: its three private fields. \<open>columnTypes\<close> and the objects
  \<open>cleanedData\<close> are association lists in property order (a key assigned again
  keeps its place); the reordering of array-index keys is not modelled, it is the
  same for every row of one validator. Column names are ordinary keys: the accessor
  \<open>__proto__\<close> of JavaScript objects is outside the model.
\<close>

record CSVValidator =
  columns :: "string list"
  seenRows :: "(string \<times> json) list set"
  columnTypes :: "(string \<times> string) list"

definition newCSVValidator :: "string list \<Rightarrow> CSVValidator" where
  "newCSVValidator cols =
     \<lparr>columns = cols, seenRows = {}, columnTypes = detectColumnTypes cols\<rparr>"

text \<open>
  \<open>this.columnTypes[col]\<close>. The constructor gives every column an entry; the empty
  string stands for \<open>undefined\<close>, which like it matches no case of the \<open>switch\<close>.
\<close>

definition columnType :: "CSVValidator \<Rightarrow> string \<Rightarrow> string" where
  "columnType this col = (case map_of (columnTypes this) col of None \<Rightarrow> [] | Some t \<Rightarrow> t)"

text \<open>
  The body of the \<open>forEach\<close> over the columns, on the three variables it updates.
  \<open>rowData[col]\<close> of a missing key is \<open>undefined\<close>, which \<open>validateValue\<close> turns
  into the empty string.
\<close>

definition validateColumn ::
  "dateParser \<Rightarrow> CSVValidator \<Rightarrow> (string \<rightharpoonup> string) \<Rightarrow> string \<Rightarrow>
   string list \<times> (string \<times> jsvalue) list \<times> bool \<Rightarrow>
   string list \<times> (string \<times> jsvalue) list \<times> bool" where
  "validateColumn parseDate this rowData col acc =
     (case acc of (errs, cleanedData, valid) \<Rightarrow>
        (let value = (case rowData col of None \<Rightarrow> [] | Some v \<Rightarrow> v);
             expectedType = columnType this col;
             validation = validateValue parseDate value expectedType
         in ((if \<not> ValidationResult.isValid validation
              then errs @ [col @ '': '' @ join '', '' (ValidationResult.errors validation)]
              else errs),
             AList.update col (cleanedValue validation) cleanedData,
             (if \<not> ValidationResult.isValid validation then False else valid))))"

definition validateRow ::
  "dateParser \<Rightarrow> CSVValidator \<Rightarrow> (string \<rightharpoonup> string) \<Rightarrow> nat \<Rightarrow>
   RowValidationResult \<times> CSVValidator" where
  "validateRow parseDate this rowData n =
     (case fold (validateColumn parseDate this rowData) (columns this) ([], [], True) of
        (errs, cleanedData, valid) \<Rightarrow>
          (let rowKey = JSON_stringify cleanedData;
               dup = (rowKey \<in> seenRows this);
               this' = (if \<not> dup then this\<lparr>seenRows := insert rowKey (seenRows this)\<rparr>
                        else this)
           in (\<lparr>rowNumber = n, data = cleanedData, errors = errs, isDuplicate = dup,
                isValid = (valid \<and> \<not> dup)\<rparr>, this')))"

subsection \<open>The summary (CSVValidator.getValidationSummary)\<close>

record CSVValidationSummary =
  totalRows :: nat
  validRows :: nat
  duplicateRows :: nat
  errorRows :: nat
  columnTypes :: "(string \<times> string) list"
  validationErrors :: "string list"
  issues :: "string list option"

text \<open>A row number in a template literal: its decimal digits.\<close>

fun showNat :: "nat \<Rightarrow> string" where
  "showNat n =
     (if n < 10 then [char_of (48 + n)]
      else showNat (n div 10) @ [char_of (48 + n mod 10)])"

definition getValidationSummary ::
  "CSVValidator \<Rightarrow> RowValidationResult list \<Rightarrow> CSVValidationSummary" where
  "getValidationSummary this results =
     (let validRows = length (filter (\<lambda>r. isValid r) results);
          duplicateRows = length (filter (\<lambda>r. isDuplicate r) results);
          errorRows = length (filter (\<lambda>r. \<not> isValid r \<and> \<not> isDuplicate r) results);
          allErrors =
            concat (map (\<lambda>result.
                      if length (errors result) > 0
                      then [''Row '' @ showNat (rowNumber result) @ '': ''
                              @ join '', '' (errors result)]
                      else []) results)
      in \<lparr>totalRows = length results, validRows = validRows,
          duplicateRows = duplicateRows, errorRows = errorRows,
          columnTypes = CSVValidator.columnTypes this,
          validationErrors = allErrors, issues = Some allErrors\<rparr>)"

subsection \<open>Reading a file (validateCSV)\<close>

text \<open>
  The promise is rejected with an \<open>Error\<close> or resolved with the results and the
  summary. The file reader either loads the text (\<open>onload\<close>) or fails (\<open>onerror\<close>).
\<close>

datatype error = Error string

datatype readOutcome = Loaded string | ReadFailed

definition dquote :: char where
  "dquote = CHR 0x22"

text \<open>\<open>line.split(',').map(v => v.trim().replace(/"/g, ''))\<close>\<close>

definition parseFields :: "string \<Rightarrow> string list" where
  "parseFields line = map (\<lambda>v. filter (\<lambda>c. c \<noteq> dquote) (trim v)) (split (CHR '','') line)"

text \<open>
  The \<open>rowData\<close> built by \<open>headers.forEach\<close>: \<open>values[index] || ''\<close> is the field at
  the header's index, and the empty string where the line has no such field.
\<close>

definition makeRowData :: "string list \<Rightarrow> string list \<Rightarrow> (string \<rightharpoonup> string)" where
  "makeRowData headers values =
     fold (\<lambda>(header, index) rowData.
             rowData(header \<mapsto> (if index < length values then values ! index else [])))
          (zip headers [0 ..< length headers]) Map.empty"

text \<open>
  The \<open>for\<close> loop over the data lines, from the line at index \<open>i\<close> on: the results
  pushed, and the validator after the last row.
\<close>

fun validateLines ::
  "dateParser \<Rightarrow> string list \<Rightarrow> CSVValidator \<Rightarrow> nat \<Rightarrow> string list \<Rightarrow>
   RowValidationResult list \<times> CSVValidator" where
  "validateLines parseDate headers validator i [] = ([], validator)"
| "validateLines parseDate headers validator i (line # rest) =
     (let values = parseFields line;
          rowData = makeRowData headers values;
          (result, validator') = validateRow parseDate validator rowData i;
          (results, validator'') = validateLines parseDate headers validator' (Suc i) rest
      in (result # results, validator''))"

definition retainedLines :: "string \<Rightarrow> string list" where
  "retainedLines csv = filter (\<lambda>line. trim line \<noteq> []) (split (CHR 0x0A) csv)"

definition validateCSV ::
  "dateParser \<Rightarrow> readOutcome \<Rightarrow> error + (RowValidationResult list \<times> CSVValidationSummary)" where
  "validateCSV parseDate file =
     (case file of
        ReadFailed \<Rightarrow> Inl (Error ''Failed to read file'')
      | Loaded csv \<Rightarrow>
          (case retainedLines csv of
             [] \<Rightarrow> Inl (Error ''Empty CSV file'')
           | headerLine # dataLines \<Rightarrow>
               (let headers = parseFields headerLine;
                    validator = newCSVValidator headers;
                    (results, validator') =
                       validateLines parseDate headers validator 1 dataLines;
                    summary = getValidationSummary validator' results
                in Inr (results, summary))))"

subsection \<open>Notions the claims are stated with\<close>

text \<open>
  The entire string is one decimal literal: the scan of \<open>parseFloat\<close> leaves
  nothing over.
\<close>

definition parsesEntirely :: "string \<Rightarrow> bool" where
  "parsesEntirely s = (case scanDecimalLiteral s of None \<Rightarrow> False | Some (n, rest) \<Rightarrow> rest = [])"

text \<open>Two strings are equal up to the case of their letters.\<close>

definition equalsIgnoringCase :: "string \<Rightarrow> string \<Rightarrow> bool" where
  "equalsIgnoringCase a b = (toLowerCase a = toLowerCase b)"

text \<open>A name contains a keyword, whatever the case of the letters on either side.\<close>

definition containsIgnoringCase :: "string \<Rightarrow> string \<Rightarrow> bool" where
  "containsIgnoringCase name kw =
     (\<exists>pre w post. name = pre @ w @ post \<and> equalsIgnoringCase w kw)"


text \<open>A date parser for the examples: an engine that reads no string as a date.\<close>

definition noDate :: dateParser where
  "noDate s = None"

text \<open>The loop over the columns keeps \<open>isValid\<close> true exactly as long as no error is pushed.\<close>

definition validIffNoErrors :: "string list \<times> (string \<times> jsvalue) list \<times> bool \<Rightarrow> bool" where
  "validIffNoErrors acc = (case acc of (errs, cleanedData, valid) \<Rightarrow> valid = (errs = []))"

section \<open>Properties\<close>

subsection \<open>Strings\<close>

text \<open>\<open>lowerChar\<close> on a character literal: an upper-case letter gets bit 5 set.\<close>

lemma lowerChar_Char:
  "lowerChar (Char b0 b1 b2 b3 b4 b5 b6 b7) =
     (let n = of_char (Char b0 b1 b2 b3 b4 b5 b6 b7) :: nat
      in if (65 \<le> n \<and> n \<le> 90) \<or> (192 \<le> n \<and> n \<le> 222 \<and> n \<noteq> 215)
         then Char b0 b1 b2 b3 b4 True b6 b7 else Char b0 b1 b2 b3 b4 b5 b6 b7)"
  unfolding lowerChar_def Let_def
  by (cases b0; cases b1; cases b2; cases b3; cases b4; cases b5; cases b6; cases b7;
      simp add: char_of_def bit_Suc_0_iff)

lemma includesStr_toLowerCase:
  "includesStr (toLowerCase name) kw \<longleftrightarrow>
     (\<exists>pre w post. name = pre @ w @ post \<and> toLowerCase w = kw)"
proof
  assume "includesStr (toLowerCase name) kw"
  then obtain ps ss where "map lowerChar name = ps @ kw @ ss"
    unfolding includesStr_def toLowerCase_def sublist_def by blast
  then have "\<exists>us vs. name = us @ vs \<and> ps = map lowerChar us \<and> kw @ ss = map lowerChar vs"
    by (simp add: map_eq_append_conv)
  then obtain us vs where 1: "name = us @ vs" and "kw @ ss = map lowerChar vs"
    by blast
  then have "\<exists>w post. vs = w @ post \<and> kw = map lowerChar w \<and> ss = map lowerChar post"
    by (simp add: append_eq_map_conv)
  then obtain w post where 2: "vs = w @ post" and 3: "map lowerChar w = kw"
    by metis
  from 1 2 3 show "\<exists>pre w post. name = pre @ w @ post \<and> toLowerCase w = kw"
    unfolding toLowerCase_def by blast
next
  assume "\<exists>pre w post. name = pre @ w @ post \<and> toLowerCase w = kw"
  then obtain pre w post where "name = pre @ w @ post" and "map lowerChar w = kw"
    unfolding toLowerCase_def by blast
  then have "map lowerChar name = map lowerChar pre @ kw @ map lowerChar post"
    by simp
  then show "includesStr (toLowerCase name) kw"
    unfolding includesStr_def toLowerCase_def sublist_def by blast
qed

lemma trim_Nil_iff: "trim s = [] \<longleftrightarrow> list_all isWhiteSpace s"
proof
  assume "trim s = []"
  then have a: "\<forall>x \<in> set (dropWhile isWhiteSpace s). isWhiteSpace x"
    by (simp add: trim_def)
  have "dropWhile isWhiteSpace s = []"
  proof (rule ccontr)
    assume n: "dropWhile isWhiteSpace s \<noteq> []"
    then have "\<not> isWhiteSpace (hd (dropWhile isWhiteSpace s))" by (rule hd_dropWhile)
    moreover have "hd (dropWhile isWhiteSpace s) \<in> set (dropWhile isWhiteSpace s)"
      using n by (rule hd_in_set)
    ultimately show False using a by blast
  qed
  then show "list_all isWhiteSpace s"
    by (simp add: list_all_iff)
next
  assume "list_all isWhiteSpace s"
  then have "\<forall>x \<in> set (dropWhile isWhiteSpace s). isWhiteSpace x"
    by (auto simp: list_all_iff dest: set_dropWhileD)
  then show "trim s = []" by (simp add: trim_def)
qed

lemmas string_eval =
  trim_def isWhiteSpace_def toLowerCase_def lowerChar_Char includesStr_def
  sublist_code prefix_code Let_def

lemma includesStr_containsIgnoringCase:
  "toLowerCase kw = kw \<Longrightarrow>
   includesStr (toLowerCase name) kw = containsIgnoringCase name kw"
  by (simp add: includesStr_toLowerCase containsIgnoringCase_def equalsIgnoringCase_def)

lemma keywords_lower:
  "toLowerCase ''email'' = ''email''" "toLowerCase ''date'' = ''date''"
  "toLowerCase ''time'' = ''time''" "toLowerCase ''price'' = ''price''"
  "toLowerCase ''amount'' = ''amount''" "toLowerCase ''cost'' = ''cost''"
  "toLowerCase ''active'' = ''active''" "toLowerCase ''enabled'' = ''enabled''"
  by (simp_all add: toLowerCase_def lowerChar_Char)

subsection \<open>Column type inference\<close>

text \<open>
  C3: the type inferred for a column is a function of its name alone, one of the
  five types, found by looking for the keywords in the name without regard to
  case, the first group that matches winning: email, then date or time, then
  price, amount or cost, then active or enabled, and string otherwise. The name
  \<open>email_date\<close> is an email column.
\<close>

theorem inferType_precedence:
  "inferType name =
     (if containsIgnoringCase name ''email'' then ''email''
      else if containsIgnoringCase name ''date'' \<or> containsIgnoringCase name ''time''
      then ''date''
      else if containsIgnoringCase name ''price'' \<or> containsIgnoringCase name ''amount''
              \<or> containsIgnoringCase name ''cost''
      then ''number''
      else if containsIgnoringCase name ''active'' \<or> containsIgnoringCase name ''enabled''
      then ''boolean''
      else ''string'') \<and>
   inferType name \<in> set [''string'', ''number'', ''date'', ''boolean'', ''email''] \<and>
   inferType ''email_date'' = ''email'' \<and>
   detectColumnTypes [''Email_Date'', ''Start TIME'', ''Unit Cost'', ''isActive'', ''id''] =
     [(''Email_Date'', ''email''), (''Start TIME'', ''date''), (''Unit Cost'', ''number''),
      (''isActive'', ''boolean''), (''id'', ''string'')]"
proof -
  have 1: "inferType ''email_date'' = ''email''"
    by (simp add: inferType_def string_eval)
  have 2: "detectColumnTypes [''Email_Date'', ''Start TIME'', ''Unit Cost'', ''isActive'', ''id''] =
     [(''Email_Date'', ''email''), (''Start TIME'', ''date''), (''Unit Cost'', ''number''),
      (''isActive'', ''boolean''), (''id'', ''string'')]"
    by (simp add: detectColumnTypes_def inferType_def string_eval)
  have 3: "inferType name =
     (if containsIgnoringCase name ''email'' then ''email''
      else if containsIgnoringCase name ''date'' \<or> containsIgnoringCase name ''time''
      then ''date''
      else if containsIgnoringCase name ''price'' \<or> containsIgnoringCase name ''amount''
              \<or> containsIgnoringCase name ''cost''
      then ''number''
      else if containsIgnoringCase name ''active'' \<or> containsIgnoringCase name ''enabled''
      then ''boolean''
      else ''string'')"
    unfolding inferType_def Let_def
    by (simp only: includesStr_containsIgnoringCase [OF keywords_lower(1)]
        includesStr_containsIgnoringCase [OF keywords_lower(2)]
        includesStr_containsIgnoringCase [OF keywords_lower(3)]
        includesStr_containsIgnoringCase [OF keywords_lower(4)]
        includesStr_containsIgnoringCase [OF keywords_lower(5)]
        includesStr_containsIgnoringCase [OF keywords_lower(6)]
        includesStr_containsIgnoringCase [OF keywords_lower(7)]
        includesStr_containsIgnoringCase [OF keywords_lower(8)])
  have 4: "inferType name \<in> set [''string'', ''number'', ''date'', ''boolean'', ''email'']"
    unfolding inferType_def Let_def by simp
  from 1 2 3 4 show ?thesis by blast
qed

subsection \<open>Cell validation\<close>

text \<open>
  C4: a raw cell value that is empty or consists of white space only is invalid for
  every expected type, with the one error message \<open>Missing value\<close> and the
  coerced value null.
\<close>

theorem missing_value:
  "list_all isWhiteSpace value \<Longrightarrow>
   validateValue parseDate value expectedType =
     \<lparr>ValidationResult.isValid = False, ValidationResult.errors = [''Missing value''],
      cleanedValue = VNull, type = expectedType\<rparr>"
  by (simp add: validateValue_def trim_Nil_iff)

theorem missing_value_witness:
  "list_all isWhiteSpace [CHR '' '', CHR 0x09] \<and>
   validateValue noDate [CHR '' '', CHR 0x09] ''number'' =
     \<lparr>ValidationResult.isValid = False, ValidationResult.errors = [''Missing value''],
      cleanedValue = VNull, type = ''number''\<rparr>"
proof -
  have h: "list_all isWhiteSpace [CHR '' '', CHR 0x09]" by (simp add: isWhiteSpace_def)
  show ?thesis using h missing_value [OF h, of noDate "''number''"] by simp
qed

text \<open>
  C9: a non-empty trimmed value of a boolean column that is, up to case, one of
  \<open>true\<close>, \<open>1\<close>, \<open>yes\<close>, \<open>on\<close> is valid and coerced to true; one of \<open>false\<close>,
  \<open>0\<close>, \<open>no\<close>, \<open>off\<close> is valid and coerced to false; any other value is invalid
  with the error \<open>Invalid boolean value\<close>.
\<close>

theorem boolean_coercion:
  "trim value \<noteq> [] \<Longrightarrow>
   (list_ex (equalsIgnoringCase (trim value)) [''true'', ''1'', ''yes'', ''on''] \<longrightarrow>
      validateValue parseDate value ''boolean'' =
        \<lparr>ValidationResult.isValid = True, ValidationResult.errors = [],
         cleanedValue = VBool True, type = ''boolean''\<rparr>) \<and>
   (list_ex (equalsIgnoringCase (trim value)) [''false'', ''0'', ''no'', ''off''] \<longrightarrow>
      validateValue parseDate value ''boolean'' =
        \<lparr>ValidationResult.isValid = True, ValidationResult.errors = [],
         cleanedValue = VBool False, type = ''boolean''\<rparr>) \<and>
   (\<not> list_ex (equalsIgnoringCase (trim value))
         [''true'', ''1'', ''yes'', ''on'', ''false'', ''0'', ''no'', ''off''] \<longrightarrow>
      validateValue parseDate value ''boolean'' =
        \<lparr>ValidationResult.isValid = False,
         ValidationResult.errors = [''Invalid boolean value''],
         cleanedValue = VString (trim value), type = ''boolean''\<rparr>)"
proof -
  assume ne: "trim value \<noteq> []"
  have low: "toLowerCase ''true'' = ''true''" "toLowerCase ''1'' = ''1''"
    "toLowerCase ''yes'' = ''yes''" "toLowerCase ''on'' = ''on''"
    "toLowerCase ''false'' = ''false''" "toLowerCase ''0'' = ''0''"
    "toLowerCase ''no'' = ''no''" "toLowerCase ''off'' = ''off''"
    by (simp_all add: toLowerCase_def lowerChar_Char)
  show ?thesis
    using ne by (auto simp: validateValue_def equalsIgnoringCase_def low Let_def)
qed

theorem boolean_coercion_witness:
  "validateValue noDate '' Yes '' ''boolean'' =
     \<lparr>ValidationResult.isValid = True, ValidationResult.errors = [],
      cleanedValue = VBool True, type = ''boolean''\<rparr> \<and>
   validateValue noDate ''OFF'' ''boolean'' =
     \<lparr>ValidationResult.isValid = True, ValidationResult.errors = [],
      cleanedValue = VBool False, type = ''boolean''\<rparr> \<and>
   validateValue noDate ''maybe'' ''boolean'' =
     \<lparr>ValidationResult.isValid = False,
      ValidationResult.errors = [''Invalid boolean value''],
      cleanedValue = VString ''maybe'', type = ''boolean''\<rparr>"
proof -
  have t: "trim '' Yes '' = ''Yes''" "trim ''OFF'' = ''OFF''" "trim ''maybe'' = ''maybe''"
    by (simp_all add: trim_def isWhiteSpace_def)
  have 1: "list_ex (equalsIgnoringCase (trim '' Yes '')) [''true'', ''1'', ''yes'', ''on'']"
    by (simp add: t equalsIgnoringCase_def toLowerCase_def lowerChar_Char)
  have 2: "list_ex (equalsIgnoringCase (trim ''OFF'')) [''false'', ''0'', ''no'', ''off'']"
    by (simp add: t equalsIgnoringCase_def toLowerCase_def lowerChar_Char)
  have 3: "\<not> list_ex (equalsIgnoringCase (trim ''maybe''))
         [''true'', ''1'', ''yes'', ''on'', ''false'', ''0'', ''no'', ''off'']"
    by (simp add: t equalsIgnoringCase_def toLowerCase_def lowerChar_Char)
  have n1: "trim '' Yes '' \<noteq> []" and n2: "trim ''OFF'' \<noteq> []" and n3: "trim ''maybe'' \<noteq> []"
    by (simp_all add: t)
  from boolean_coercion [OF n1, of noDate] 1
  have a: "validateValue noDate '' Yes '' ''boolean'' =
     \<lparr>ValidationResult.isValid = True, ValidationResult.errors = [],
      cleanedValue = VBool True, type = ''boolean''\<rparr>"
    by blast
  from boolean_coercion [OF n2, of noDate] 2
  have b: "validateValue noDate ''OFF'' ''boolean'' =
     \<lparr>ValidationResult.isValid = True, ValidationResult.errors = [],
      cleanedValue = VBool False, type = ''boolean''\<rparr>"
    by blast
  from boolean_coercion [OF n3, of noDate] 3
  have c: "validateValue noDate ''maybe'' ''boolean'' =
     \<lparr>ValidationResult.isValid = False,
      ValidationResult.errors = [''Invalid boolean value''],
      cleanedValue = VString (trim ''maybe''), type = ''boolean''\<rparr>"
    by blast
  from a b c show ?thesis by (simp add: t)
qed

text \<open>\<open>parseFloat\<close> yields NaN exactly when no prefix of the string is a decimal literal.\<close>

lemma numberValue_not_NaN: "numberValue negative q \<noteq> NaN"
  by (simp add: numberValue_def split: option.splits)

lemma scanDecimalLiteral_not_NaN:
  "scanDecimalLiteral s = Some (n, rest) \<Longrightarrow> n \<noteq> NaN"
  unfolding scanDecimalLiteral_def Let_def
  by (auto simp: numberValue_not_NaN split: prod.splits option.splits if_splits)

lemma parseFloat_NaN_iff: "isNaN (parseFloat s) \<longleftrightarrow> scanDecimalLiteral s = None"
  unfolding isNaN_def parseFloat_def
  by (auto split: option.splits dest: scanDecimalLiteral_not_NaN)

lemma scan_12abc: "scanDecimalLiteral ''12abc'' = Some (Finite 12, ''abc'')"
  by code_simp

lemma scan_abc: "scanDecimalLiteral ''abc'' = None"
  by code_simp

lemma scan_9_99: "scanDecimalLiteral ''9.99'' = Some (Finite (5623870034678907 / 562949953421312), [])"
  by code_simp

text \<open>Some values of \<open>parseFloat\<close>, among them a rounded one and a tie.\<close>

lemma parseFloat_examples:
  "parseFloat ''0.1'' = Finite (3602879701896397 / 36028797018963968)"
  "parseFloat ''-0'' = NegZero"
  "parseFloat ''9007199254740993'' = Finite 9007199254740992"
  "parseFloat ''.5e1x'' = Finite 5"
  "parseFloat ''Infinity'' = PosInfinity"
  "parseFloat ''-.'' = NaN"
  by code_simp+

text \<open>
  C5, as the code has it: a non-empty trimmed value of a number column is invalid,
  with the error \<open>Invalid number format\<close> and the trimmed string kept, exactly when
  no prefix of it is a decimal literal; otherwise it is valid and coerced to the
  Number value of its longest prefix that is one, whatever follows that prefix. In
  particular a value that is a decimal literal as a whole is valid.
\<close>

theorem number_validation:
  "trim value \<noteq> [] \<Longrightarrow>
   (case scanDecimalLiteral (trim value) of
      None \<Rightarrow>
        validateValue parseDate value ''number'' =
          \<lparr>ValidationResult.isValid = False,
           ValidationResult.errors = [''Invalid number format''],
           cleanedValue = VString (trim value), type = ''number''\<rparr>
    | Some (n, rest) \<Rightarrow>
        validateValue parseDate value ''number'' =
          \<lparr>ValidationResult.isValid = True, ValidationResult.errors = [],
           cleanedValue = VNumber n, type = ''number''\<rparr> \<and> n \<noteq> NaN) \<and>
   (parsesEntirely (trim value) \<longrightarrow>
      ValidationResult.isValid (validateValue parseDate value ''number''))"
proof -
  assume ne: "trim value \<noteq> []"
  show ?thesis
  proof (cases "scanDecimalLiteral (trim value)")
    case None
    then have "isNaN (parseFloat (trim value))" by (simp add: parseFloat_NaN_iff)
    with ne None show ?thesis
      by (simp add: validateValue_def Let_def parsesEntirely_def)
  next
    case (Some a)
    obtain n rest where a: "a = (n, rest)" by (cases a)
    from Some a have n: "n \<noteq> NaN" by (auto dest: scanDecimalLiteral_not_NaN)
    from Some a have p: "parseFloat (trim value) = n" by (simp add: parseFloat_def)
    from ne Some a n p show ?thesis
      by (simp add: validateValue_def Let_def isNaN_def)
  qed
qed

theorem number_validation_witness:
  "validateValue noDate '' 12abc'' ''number'' =
     \<lparr>ValidationResult.isValid = True, ValidationResult.errors = [],
      cleanedValue = VNumber (Finite 12), type = ''number''\<rparr> \<and>
   validateValue noDate ''abc'' ''number'' =
     \<lparr>ValidationResult.isValid = False,
      ValidationResult.errors = [''Invalid number format''],
      cleanedValue = VString ''abc'', type = ''number''\<rparr> \<and>
   parsesEntirely (trim ''9.99'') \<and>
   ValidationResult.isValid (validateValue noDate ''9.99'' ''number'')"
proof -
  have t: "trim '' 12abc'' = ''12abc''" "trim ''abc'' = ''abc''" "trim ''9.99'' = ''9.99''"
    by (simp_all add: trim_def isWhiteSpace_def)
  have n: "trim '' 12abc'' \<noteq> []" "trim ''abc'' \<noteq> []" "trim ''9.99'' \<noteq> []"
    by (simp_all add: t)
  have p: "parsesEntirely (trim ''9.99'')"
    by (simp add: t parsesEntirely_def scan_9_99)
  from number_validation [OF n(1), of noDate]
  have a: "validateValue noDate '' 12abc'' ''number'' =
     \<lparr>ValidationResult.isValid = True, ValidationResult.errors = [],
      cleanedValue = VNumber (Finite 12), type = ''number''\<rparr>"
    by (simp add: t scan_12abc)
  from number_validation [OF n(2), of noDate]
  have b: "validateValue noDate ''abc'' ''number'' =
     \<lparr>ValidationResult.isValid = False,
      ValidationResult.errors = [''Invalid number format''],
      cleanedValue = VString ''abc'', type = ''number''\<rparr>"
    by (simp add: t scan_abc)
  from number_validation [OF n(3), of noDate] p
  have c: "ValidationResult.isValid (validateValue noDate ''9.99'' ''number'')"
    by blast
  from a b c p show ?thesis by blast
qed

text \<open>
  C5 as stated fails: \<open>12abc\<close> is not a floating-point number as a whole, and the
  cell is valid, coerced to 12.
\<close>

theorem number_validation_counterexample:
  "trim ''12abc'' \<noteq> [] \<and> \<not> parsesEntirely (trim ''12abc'') \<and>
   validateValue noDate ''12abc'' ''number'' =
     \<lparr>ValidationResult.isValid = True, ValidationResult.errors = [],
      cleanedValue = VNumber (Finite 12), type = ''number''\<rparr>"
  by code_simp

subsection \<open>Splitting a line into fields\<close>

lemma join_split: "join [c] (split c s) = s"
proof (induction s)
  case Nil
  show ?case by simp
next
  case (Cons x xs)
  show ?case
  proof (cases "split c xs")
    case Nil
    with Cons show ?thesis by simp
  next
    case (Cons p ps)
    with Cons.IH show ?thesis by (cases ps) (auto)
  qed
qed

lemma split_no_separator: "list_all (\<lambda>p. c \<notin> set p) (split c s)"
  by (induction s) (auto split: list.splits)

lemma length_split: "length (split c s) = Suc (count_list s c)"
  by (induction s) (auto split: list.splits)

text \<open>
  C6, as the code has it: the fields of a header or data line are the pieces
  between its commas, each trimmed and then freed of every double-quote character;
  no parsed field contains a double quote.
\<close>

theorem parseFields_quotes:
  "join '','' (split (CHR '','') line) = line \<and>
   list_all (\<lambda>p. CHR '','' \<notin> set p) (split (CHR '','') line) \<and>
   parseFields line = map (\<lambda>v. filter (\<lambda>c. c \<noteq> dquote) (trim v)) (split (CHR '','') line) \<and>
   list_all (\<lambda>f. dquote \<notin> set f) (parseFields line)"
  using split_no_separator [of "CHR '',''" line]
  by (simp add: join_split parseFields_def list_all_iff)

text \<open>
  C6 as stated fails: the double quote in the interior of the field \<open>x"y\<close> is
  removed like the surrounding ones of \<open>"z"\<close>.
\<close>

theorem parseFields_counterexample:
  "parseFields [CHR ''x'', dquote, CHR ''y'', CHR '','', dquote, CHR ''z'', dquote] =
     [''xy'', ''z''] \<and>
   dquote \<in> set (trim [CHR ''x'', dquote, CHR ''y'']) \<and>
   dquote \<notin> set (hd (parseFields [CHR ''x'', dquote, CHR ''y'', CHR '','', dquote, CHR ''z'', dquote]))"
  by (simp add: parseFields_def dquote_def trim_def isWhiteSpace_def)

subsection \<open>Rows, runs and the summary\<close>

lemma validateRow_rowNumber: "rowNumber (fst (validateRow parseDate this rowData n)) = n"
  by (simp add: validateRow_def Let_def split: prod.splits)

lemma validateRow_not_valid_duplicate:
  "\<not> (isValid (fst (validateRow parseDate this rowData n)) \<and>
      isDuplicate (fst (validateRow parseDate this rowData n)))"
  by (simp add: validateRow_def Let_def split: prod.splits)

lemma validateColumn_validIffNoErrors:
  "validIffNoErrors acc \<Longrightarrow> validIffNoErrors (validateColumn parseDate this rowData col acc)"
  by (cases acc) (simp add: validIffNoErrors_def validateColumn_def Let_def)

lemma fold_validateColumn_validIffNoErrors:
  "validIffNoErrors acc \<Longrightarrow>
   validIffNoErrors (fold (validateColumn parseDate this rowData) cols acc)"
  by (induction cols arbitrary: acc) (simp_all add: validateColumn_validIffNoErrors)

lemma validateRow_valid_iff:
  "isValid (fst (validateRow parseDate this rowData n)) \<longleftrightarrow>
     errors (fst (validateRow parseDate this rowData n)) = [] \<and>
     \<not> isDuplicate (fst (validateRow parseDate this rowData n))"
proof -
  have "validIffNoErrors ([], [], True)" by (simp add: validIffNoErrors_def)
  then have "validIffNoErrors
     (fold (validateColumn parseDate this rowData) (columns this) ([], [], True))"
    by (rule fold_validateColumn_validIffNoErrors)
  then show ?thesis
    by (simp add: validateRow_def Let_def validIffNoErrors_def split: prod.splits)
qed

lemma validateLines_Cons:
  "validateLines parseDate headers validator i (line # rest) =
     (fst (validateRow parseDate validator (makeRowData headers (parseFields line)) i)
        # fst (validateLines parseDate headers
                 (snd (validateRow parseDate validator (makeRowData headers (parseFields line)) i))
                 (Suc i) rest),
      snd (validateLines parseDate headers
             (snd (validateRow parseDate validator (makeRowData headers (parseFields line)) i))
             (Suc i) rest))"
  by (simp add: Let_def split: prod.splits)

lemma length_validateLines:
  "length (fst (validateLines parseDate headers validator i ls)) = length ls"
  by (induction ls arbitrary: validator i) (simp_all add: validateLines_Cons del: validateLines.simps(2))

lemma validateLines_rowNumbers:
  "map rowNumber (fst (validateLines parseDate headers validator i ls)) = [i ..< i + length ls]"
proof (induction ls arbitrary: validator i)
  case Nil
  show ?case by simp
next
  case (Cons line rest)
  have "[i ..< i + Suc (length rest)] = i # [Suc i ..< i + Suc (length rest)]"
    by (rule upt_conv_Cons) simp
  with Cons.IH show ?case
    by (simp add: validateLines_Cons validateRow_rowNumber del: validateLines.simps(2))
qed

lemma validateLines_from_validateRow:
  "k < length ls \<Longrightarrow>
   \<exists>v. fst (validateLines parseDate headers validator i ls) ! k =
         fst (validateRow parseDate v (makeRowData headers (parseFields (ls ! k))) (i + k))"
proof (induction ls arbitrary: validator i k)
  case Nil
  then show ?case by simp
next
  case (Cons line rest)
  show ?case
  proof (cases k)
    case 0
    then show ?thesis
      by (auto simp: validateLines_Cons simp del: validateLines.simps(2))
  next
    case (Suc j)
    with Cons.prems have "j < length rest" by simp
    from Cons.IH [OF this,
        of "snd (validateRow parseDate validator (makeRowData headers (parseFields line)) i)" "Suc i"]
      Suc
    show ?thesis
      by (simp add: validateLines_Cons del: validateLines.simps(2))
  qed
qed

lemma validateLines_all_from_validateRow:
  "\<forall>r \<in> set (fst (validateLines parseDate headers validator i ls)).
     \<exists>v rowData n. r = fst (validateRow parseDate v rowData n)"
proof
  fix r
  assume "r \<in> set (fst (validateLines parseDate headers validator i ls))"
  then obtain k where k: "k < length ls"
    and r: "r = fst (validateLines parseDate headers validator i ls) ! k"
    by (auto simp: in_set_conv_nth length_validateLines)
  from validateLines_from_validateRow [OF k, of parseDate headers validator i] r
  show "\<exists>v rowData n. r = fst (validateRow parseDate v rowData n)" by metis
qed

lemma validateCSV_Loaded:
  "retainedLines csv = headerLine # dataLines \<Longrightarrow>
   validateCSV parseDate (Loaded csv) =
     Inr (fst (validateLines parseDate (parseFields headerLine)
                 (newCSVValidator (parseFields headerLine)) 1 dataLines),
          getValidationSummary
            (snd (validateLines parseDate (parseFields headerLine)
                    (newCSVValidator (parseFields headerLine)) 1 dataLines))
            (fst (validateLines parseDate (parseFields headerLine)
                    (newCSVValidator (parseFields headerLine)) 1 dataLines)))"
  by (simp add: validateCSV_def Let_def split: prod.splits)

lemma partition_counts:
  "\<forall>r \<in> set rs. \<not> (isValid r \<and> isDuplicate r) \<Longrightarrow>
   length (filter (\<lambda>r. isValid r) rs) + length (filter (\<lambda>r. isDuplicate r) rs)
     + length (filter (\<lambda>r. \<not> isValid r \<and> \<not> isDuplicate r) rs) = length rs"
  by (induction rs) auto


text \<open>The scenario of two identical rows \<open>1,9.99\<close> under the header \<open>id,price\<close>.\<close>

lemma ex_price:
  "validateCSV noDate (Loaded ''id,price\<newline>1,9.99\<newline>1,9.99'') =
     Inr ([\<lparr>rowNumber = 1,
            data = [(''id'', VString ''1''),
                    (''price'', VNumber (Finite (5623870034678907 / 562949953421312)))],
            errors = [], isDuplicate = False, isValid = True\<rparr>,
           \<lparr>rowNumber = 2,
            data = [(''id'', VString ''1''),
                    (''price'', VNumber (Finite (5623870034678907 / 562949953421312)))],
            errors = [], isDuplicate = True, isValid = False\<rparr>],
          \<lparr>totalRows = 2, validRows = 1, duplicateRows = 1, errorRows = 0,
           columnTypes = [(''id'', ''string''), (''price'', ''number'')],
           validationErrors = [], issues = Some []\<rparr>)"
  by code_simp

lemma retained_price:
  "retainedLines ''id,price\<newline>1,9.99\<newline>1,9.99'' = [''id,price'', ''1,9.99'', ''1,9.99'']"
  by (simp add: retainedLines_def trim_def isWhiteSpace_def)

text \<open>
  C1: when every result comes from a call of \<open>validateRow\<close>, as the results of one
  validator run do, the summary counts satisfy
  \<open>validRows + duplicateRows + errorRows = totalRows\<close>, where \<open>totalRows\<close> is the
  number of results, \<open>validRows\<close> counts the valid ones, \<open>duplicateRows\<close> the
  duplicates and \<open>errorRows\<close> those neither valid nor duplicate; no row counted as
  an error row is a duplicate.
\<close>

theorem summary_partition:
  "\<forall>r \<in> set results.
     \<exists>parseDate validator rowData n. r = fst (validateRow parseDate validator rowData n) \<Longrightarrow>
   validRows (getValidationSummary this results)
     + duplicateRows (getValidationSummary this results)
     + errorRows (getValidationSummary this results)
     = totalRows (getValidationSummary this results) \<and>
   totalRows (getValidationSummary this results) = length results \<and>
   validRows (getValidationSummary this results) = length (filter (\<lambda>r. isValid r) results) \<and>
   duplicateRows (getValidationSummary this results)
     = length (filter (\<lambda>r. isDuplicate r) results) \<and>
   errorRows (getValidationSummary this results)
     = length (filter (\<lambda>r. \<not> isValid r \<and> \<not> isDuplicate r) results) \<and>
   filter (\<lambda>r. isDuplicate r) (filter (\<lambda>r. \<not> isValid r \<and> \<not> isDuplicate r) results) = []"
proof -
  assume a: "\<forall>r \<in> set results.
     \<exists>parseDate validator rowData n. r = fst (validateRow parseDate validator rowData n)"
  have "\<forall>r \<in> set results. \<not> (isValid r \<and> isDuplicate r)"
  proof
    fix r
    assume "r \<in> set results"
    with a obtain parseDate validator rowData n
      where "r = fst (validateRow parseDate validator rowData n)" by blast
    then show "\<not> (isValid r \<and> isDuplicate r)"
      using validateRow_not_valid_duplicate [of parseDate validator rowData n] by simp
  qed
  from partition_counts [OF this] show ?thesis
    by (simp add: getValidationSummary_def Let_def)
qed

theorem summary_partition_witness:
  "(\<exists>results summary.
      validateCSV noDate (Loaded ''id,price\<newline>1,9.99\<newline>1,9.99'') = Inr (results, summary) \<and>
      validRows summary = 1 \<and> duplicateRows summary = 1 \<and> errorRows summary = 0 \<and>
      totalRows summary = 2 \<and>
      validRows summary + duplicateRows summary + errorRows summary = totalRows summary)"
proof -
  let ?run = "validateLines noDate (parseFields ''id,price'')
                (newCSVValidator (parseFields ''id,price'')) 1 [''1,9.99'', ''1,9.99'']"
  have e: "validateCSV noDate (Loaded ''id,price\<newline>1,9.99\<newline>1,9.99'') =
      Inr (fst ?run, getValidationSummary (snd ?run) (fst ?run))"
    by (rule validateCSV_Loaded [OF retained_price])
  have "\<forall>r \<in> set (fst ?run).
     \<exists>parseDate validator rowData n. r = fst (validateRow parseDate validator rowData n)"
    using validateLines_all_from_validateRow by blast
  from summary_partition [OF this, of "snd ?run"]
  have p: "validRows (getValidationSummary (snd ?run) (fst ?run))
     + duplicateRows (getValidationSummary (snd ?run) (fst ?run))
     + errorRows (getValidationSummary (snd ?run) (fst ?run))
     = totalRows (getValidationSummary (snd ?run) (fst ?run))"
    by blast
  from e ex_price have s: "getValidationSummary (snd ?run) (fst ?run) =
          \<lparr>totalRows = 2, validRows = 1, duplicateRows = 1, errorRows = 0,
           columnTypes = [(''id'', ''string''), (''price'', ''number'')],
           validationErrors = [], issues = Some []\<rparr>"
    by simp
  from e p s show ?thesis by simp
qed

subsection \<open>Reading a file\<close>

lemma retainedLines_nonblank:
  "retainedLines csv = filter (\<lambda>line. \<not> list_all isWhiteSpace line) (split (CHR 0x0A) csv)"
  by (simp add: retainedLines_def trim_Nil_iff)

lemma validateCSV_Inr_retained:
  "validateCSV parseDate (Loaded csv) = Inr (results, summary) \<Longrightarrow>
   \<exists>headerLine dataLines. retainedLines csv = headerLine # dataLines"
  by (cases "retainedLines csv") (simp_all add: validateCSV_def)

lemma validateLines_valid_iff:
  "\<forall>r \<in> set (fst (validateLines parseDate headers validator i ls)).
     isValid r = (errors r = [] \<and> \<not> isDuplicate r)"
proof
  fix r
  assume "r \<in> set (fst (validateLines parseDate headers validator i ls))"
  with validateLines_all_from_validateRow obtain v rowData n
    where "r = fst (validateRow parseDate v rowData n)" by blast
  then show "isValid r = (errors r = [] \<and> \<not> isDuplicate r)"
    using validateRow_valid_iff [of parseDate v rowData n] by simp
qed


text \<open>Three inputs: a blank line between two data rows, a bad cell, and white space only.\<close>

lemma ex_alice:
  "validateCSV parseDate (Loaded ''name\<newline>Alice\<newline>\<newline>Bob'') =
     Inr ([\<lparr>rowNumber = 1, data = [(''name'', VString ''Alice'')], errors = [],
            isDuplicate = False, isValid = True\<rparr>,
           \<lparr>rowNumber = 2, data = [(''name'', VString ''Bob'')], errors = [],
            isDuplicate = False, isValid = True\<rparr>],
          \<lparr>totalRows = 2, validRows = 2, duplicateRows = 0, errorRows = 0,
           columnTypes = [(''name'', ''string'')], validationErrors = [],
           issues = Some []\<rparr>)"
  by code_simp

lemma retained_alice:
  "retainedLines ''name\<newline>Alice\<newline>\<newline>Bob'' = [''name'', ''Alice'', ''Bob'']"
  by (simp add: retainedLines_def trim_def isWhiteSpace_def)

lemma ex_one_row:
  "validateCSV noDate (Loaded ''email\<newline>\<newline>  \<newline>foo'') =
     Inr ([\<lparr>rowNumber = 1, data = [(''email'', VString ''foo'')],
            errors = [''email: Invalid email format''],
            isDuplicate = False, isValid = False\<rparr>],
          \<lparr>totalRows = 1, validRows = 0, duplicateRows = 0, errorRows = 1,
           columnTypes = [(''email'', ''email'')],
           validationErrors = [''Row 1: email: Invalid email format''],
           issues = Some [''Row 1: email: Invalid email format'']\<rparr>)"
  by code_simp

lemma retained_one_row:
  "retainedLines ''email\<newline>\<newline>  \<newline>foo'' = [''email'', ''foo'']"
  by (simp add: retainedLines_def trim_def isWhiteSpace_def)


text \<open>
  C7: the lines kept are those not blank after trimming; the results number the
  data lines kept 1, 2, ... in order, the result at position \<open>k\<close> being that of
  \<open>validateRow\<close> on the kept line of index \<open>k + 1\<close> with row number \<open>k + 1\<close>, so a
  blank line takes no number. For the input \<open>name\<close>, \<open>Alice\<close>, blank, \<open>Bob\<close> the
  row of Alice is 1 and the row of Bob is 2.
\<close>

theorem row_numbering:
  "(validateCSV parseDate (Loaded csv) = Inr (results, summary) \<longrightarrow>
      retainedLines csv = filter (\<lambda>line. \<not> list_all isWhiteSpace line) (split (CHR 0x0A) csv) \<and>
      map rowNumber results = [1 ..< length (retainedLines csv)] \<and>
      (\<forall>k < length results.
         \<exists>validator.
           results ! k =
             fst (validateRow parseDate validator
                    (makeRowData (parseFields (retainedLines csv ! 0))
                       (parseFields (retainedLines csv ! Suc k)))
                    (Suc k)))) \<and>
   retainedLines ''name\<newline>Alice\<newline>\<newline>Bob'' = [''name'', ''Alice'', ''Bob''] \<and>
   validateCSV parseDate (Loaded ''name\<newline>Alice\<newline>\<newline>Bob'') =
     Inr ([\<lparr>rowNumber = 1, data = [(''name'', VString ''Alice'')], errors = [],
            isDuplicate = False, isValid = True\<rparr>,
           \<lparr>rowNumber = 2, data = [(''name'', VString ''Bob'')], errors = [],
            isDuplicate = False, isValid = True\<rparr>],
          \<lparr>totalRows = 2, validRows = 2, duplicateRows = 0, errorRows = 0,
           columnTypes = [(''name'', ''string'')], validationErrors = [],
           issues = Some []\<rparr>)"
proof -
  have g: "retainedLines csv = filter (\<lambda>line. \<not> list_all isWhiteSpace line) (split (CHR 0x0A) csv) \<and>
      map rowNumber results = [1 ..< length (retainedLines csv)] \<and>
      (\<forall>k < length results.
         \<exists>validator.
           results ! k =
             fst (validateRow parseDate validator
                    (makeRowData (parseFields (retainedLines csv ! 0))
                       (parseFields (retainedLines csv ! Suc k)))
                    (Suc k)))"
    if v: "validateCSV parseDate (Loaded csv) = Inr (results, summary)"
  proof -
    from validateCSV_Inr_retained [OF v] obtain headerLine dataLines
      where r: "retainedLines csv = headerLine # dataLines" by blast
    let ?run = "validateLines parseDate (parseFields headerLine)
                  (newCSVValidator (parseFields headerLine)) 1 dataLines"
    from v validateCSV_Loaded [OF r, of parseDate] have res: "results = fst ?run" by simp
    have 1: "map rowNumber results = [1 ..< length (retainedLines csv)]"
      using validateLines_rowNumbers [of parseDate "parseFields headerLine"
          "newCSVValidator (parseFields headerLine)" 1 dataLines]
      by (simp add: res r)
    have 2: "\<exists>validator.
           results ! k =
             fst (validateRow parseDate validator
                    (makeRowData (parseFields (retainedLines csv ! 0))
                       (parseFields (retainedLines csv ! Suc k)))
                    (Suc k))" if k: "k < length results" for k
    proof -
      from k have "k < length dataLines" by (simp add: res length_validateLines)
      from validateLines_from_validateRow [OF this, of parseDate "parseFields headerLine"
          "newCSVValidator (parseFields headerLine)" 1]
      show ?thesis by (simp add: res r)
    qed
    from 1 2 retainedLines_nonblank show ?thesis by blast
  qed
  from g ex_alice retained_alice show ?thesis by blast
qed

theorem row_numbering_witness:
  "\<exists>results summary.
     validateCSV noDate (Loaded ''email\<newline>\<newline>  \<newline>foo'') = Inr (results, summary) \<and>
     map rowNumber results = [1] \<and>
     split (CHR 0x0A) ''email\<newline>\<newline>  \<newline>foo'' ! 3 = ''foo''"
proof -
  from row_numbering [of noDate "''email\<newline>\<newline>  \<newline>foo''"] ex_one_row
  have "map rowNumber [\<lparr>rowNumber = 1, data = [(''email'', VString ''foo'')],
            errors = [''email: Invalid email format''],
            isDuplicate = False, isValid = False\<rparr>] =
          [1 ..< length (retainedLines ''email\<newline>\<newline>  \<newline>foo'')]"
    by blast
  with ex_one_row show ?thesis by (simp add: retained_one_row)
qed
















subsection \<open>Duplicate detection\<close>

lemma validateColumn_data:
  "map_of (fst (snd (validateColumn parseDate this rowData col acc))) =
     (map_of (fst (snd acc)))
       (col \<mapsto> cleanedValue (validateValue parseDate
                 (case rowData col of None \<Rightarrow> [] | Some v \<Rightarrow> v) (columnType this col)))"
  by (cases acc) (simp add: validateColumn_def Let_def update_conv')

lemma fold_validateColumn_data:
  "col \<in> set cols \<Longrightarrow>
   map_of (fst (snd (fold (validateColumn parseDate this rowData) cols acc))) col =
     Some (cleanedValue (validateValue parseDate
             (case rowData col of None \<Rightarrow> [] | Some v \<Rightarrow> v) (columnType this col)))"
proof (induction cols arbitrary: acc rule: rev_induct)
  case Nil
  then show ?case by simp
next
  case (snoc c cols)
  show ?case
  proof (cases "col = c")
    case True
    then show ?thesis by (simp add: validateColumn_data)
  next
    case False
    with snoc.prems have "col \<in> set cols" by simp
    from snoc.IH [OF this] False show ?thesis by (simp add: validateColumn_data)
  qed
qed

lemma validateRow_data_fold:
  "data (fst (validateRow parseDate this rowData n)) =
     fst (snd (fold (validateColumn parseDate this rowData) (columns this) ([], [], True)))"
  by (simp add: validateRow_def Let_def split: prod.splits)

lemma validateRow_data:
  "col \<in> set (columns this) \<Longrightarrow>
   map_of (data (fst (validateRow parseDate this rowData n))) col =
     Some (cleanedValue (validateValue parseDate
             (case rowData col of None \<Rightarrow> [] | Some v \<Rightarrow> v) (columnType this col)))"
  by (simp add: validateRow_data_fold fold_validateColumn_data)

lemma validateColumn_seenRows:
  "validateColumn parseDate (this\<lparr>seenRows := S\<rparr>) rowData = validateColumn parseDate this rowData"
  by (intro ext) (simp add: validateColumn_def columnType_def)

lemma validateRow_isDuplicate:
  "isDuplicate (fst (validateRow parseDate this rowData n)) =
     (JSON_stringify (data (fst (validateRow parseDate this rowData n))) \<in> seenRows this)"
  by (simp add: validateRow_def Let_def split: prod.splits)

lemma validateRow_snd:
  "snd (validateRow parseDate this rowData n) =
     this\<lparr>seenRows :=
            insert (JSON_stringify (data (fst (validateRow parseDate this rowData n))))
              (seenRows this)\<rparr>"
  by (simp add: validateRow_def Let_def insert_absorb split: prod.splits)

lemma validateRow_seenRows:
  "data (fst (validateRow parseDate (this\<lparr>seenRows := S\<rparr>) rowData m)) =
     data (fst (validateRow parseDate this rowData n)) \<and>
   errors (fst (validateRow parseDate (this\<lparr>seenRows := S\<rparr>) rowData m)) =
     errors (fst (validateRow parseDate this rowData n))"
  by (simp add: validateRow_def Let_def validateColumn_seenRows split: prod.splits)

lemma validateRow_again:
  "isDuplicate (fst (validateRow parseDate (snd (validateRow parseDate this rowData n)) rowData m)) \<and>
   data (fst (validateRow parseDate (snd (validateRow parseDate this rowData n)) rowData m)) =
     data (fst (validateRow parseDate this rowData n)) \<and>
   errors (fst (validateRow parseDate (snd (validateRow parseDate this rowData n)) rowData m)) =
     errors (fst (validateRow parseDate this rowData n))"
  by (simp add: validateRow_isDuplicate validateRow_snd validateRow_seenRows [of _ _ _ _ m n])

lemma JSON_stringify_map_of:
  "map_of (JSON_stringify obj) k = map_option jsonValue (map_of obj k)"
  by (induction obj) (auto simp: JSON_stringify_def)

lemma abc_invalid:
  "validateValue noDate ''abc'' ''number'' =
     \<lparr>ValidationResult.isValid = False,
      ValidationResult.errors = [''Invalid number format''],
      cleanedValue = VString ''abc'', type = ''number''\<rparr>"
  by code_simp

lemma price_validator:
  "columns (newCSVValidator [''price'']) = [''price''] \<and>
   columnType (newCSVValidator [''price'']) ''price'' = ''number''"
  by code_simp

text \<open>
  C10: a non-empty value that fails validation against the number, email, date or
  boolean type keeps the trimmed raw string as its coerced value, which prints as
  a JSON string. Every column's coerced value is stored in the row's data and is a
  member of the serialisation that is looked up in the seen rows, so that a row
  validated again with the same raw cells, valid or not, is a duplicate with the
  same errors.
\<close>

theorem invalid_value_kept:
  "(trim value \<noteq> [] \<and> expectedType \<in> set [''number'', ''email'', ''date'', ''boolean''] \<and>
    \<not> ValidationResult.isValid (validateValue parseDate value expectedType) \<longrightarrow>
      cleanedValue (validateValue parseDate value expectedType) = VString (trim value) \<and>
      jsonValue (cleanedValue (validateValue parseDate value expectedType)) = JString (trim value)) \<and>
   (col \<in> set (columns this) \<longrightarrow>
      map_of (data (fst (validateRow parseDate this rowData n))) col =
        Some (cleanedValue (validateValue parseDate
                (case rowData col of None \<Rightarrow> [] | Some v \<Rightarrow> v) (columnType this col))) \<and>
      map_of (JSON_stringify (data (fst (validateRow parseDate this rowData n)))) col =
        Some (jsonValue (cleanedValue (validateValue parseDate
                (case rowData col of None \<Rightarrow> [] | Some v \<Rightarrow> v) (columnType this col))))) \<and>
   isDuplicate (fst (validateRow parseDate this rowData n)) =
     (JSON_stringify (data (fst (validateRow parseDate this rowData n))) \<in> seenRows this) \<and>
   isDuplicate (fst (validateRow parseDate (snd (validateRow parseDate this rowData n)) rowData m)) \<and>
   errors (fst (validateRow parseDate (snd (validateRow parseDate this rowData n)) rowData m)) =
     errors (fst (validateRow parseDate this rowData n))"
proof -
  have 1: "cleanedValue (validateValue parseDate value expectedType) = VString (trim value)"
    if "trim value \<noteq> []"
      and "expectedType \<in> set [''number'', ''email'', ''date'', ''boolean'']"
      and "\<not> ValidationResult.isValid (validateValue parseDate value expectedType)"
    using that by (auto simp: validateValue_def Let_def split: if_splits option.splits)
  have 2: "map_of (JSON_stringify (data (fst (validateRow parseDate this rowData n)))) col =
        Some (jsonValue (cleanedValue (validateValue parseDate
                (case rowData col of None \<Rightarrow> [] | Some v \<Rightarrow> v) (columnType this col))))"
    if "col \<in> set (columns this)"
    by (simp add: JSON_stringify_map_of validateRow_data [OF that])
  from 1 2 validateRow_data validateRow_isDuplicate validateRow_again show ?thesis
    by (metis jsonValue.simps(3))
qed


theorem invalid_value_kept_witness:
  "cleanedValue (validateValue noDate ''abc'' ''number'') = VString ''abc'' \<and>
   map_of (JSON_stringify (data (fst
      (validateRow noDate (newCSVValidator [''price'']) [''price'' \<mapsto> ''abc''] 1)))) ''price'' =
     Some (JString ''abc'') \<and>
   isDuplicate (fst
      (validateRow noDate
         (snd (validateRow noDate (newCSVValidator [''price'']) [''price'' \<mapsto> ''abc''] 1))
         [''price'' \<mapsto> ''abc''] 2)) \<and>
   errors (fst
      (validateRow noDate
         (snd (validateRow noDate (newCSVValidator [''price'']) [''price'' \<mapsto> ''abc''] 1))
         [''price'' \<mapsto> ''abc''] 2)) = [''price: Invalid number format'']"
proof -
  note t = invalid_value_kept [of "''abc''" "''number''" noDate "''price''"
      "newCSVValidator [''price'']" "[''price'' \<mapsto> ''abc'']" 1 2]
  have h1: "trim ''abc'' \<noteq> [] \<and> ''number'' \<in> set [''number'', ''email'', ''date'', ''boolean''] \<and>
    \<not> ValidationResult.isValid (validateValue noDate ''abc'' ''number'')"
    by (simp add: abc_invalid trim_def isWhiteSpace_def)
  have h2: "''price'' \<in> set (columns (newCSVValidator [''price'']))"
    by (simp add: price_validator)
  from t h1 have a: "cleanedValue (validateValue noDate ''abc'' ''number'') = VString ''abc''"
    by (simp add: abc_invalid)
  from t h2 have b: "map_of (JSON_stringify (data (fst
      (validateRow noDate (newCSVValidator [''price'']) [''price'' \<mapsto> ''abc''] 1)))) ''price'' =
     Some (JString ''abc'')"
    by (simp add: price_validator abc_invalid)
  from t have c: "isDuplicate (fst
      (validateRow noDate
         (snd (validateRow noDate (newCSVValidator [''price'']) [''price'' \<mapsto> ''abc''] 1))
         [''price'' \<mapsto> ''abc''] 2))"
    by blast
  have e: "errors (fst (validateRow noDate (newCSVValidator [''price''])
             [''price'' \<mapsto> ''abc''] 1)) = [''price: Invalid number format'']"
    by (simp add: validateRow_def validateColumn_def price_validator abc_invalid Let_def)
  from t e have d: "errors (fst
      (validateRow noDate
         (snd (validateRow noDate (newCSVValidator [''price'']) [''price'' \<mapsto> ''abc''] 1))
         [''price'' \<mapsto> ''abc''] 2)) = [''price: Invalid number format'']"
    by simp
  from a b c d show ?thesis by blast
qed

text \<open>
  Within one file a row is a duplicate exactly when an earlier row has the same
  serialisation; a row whose coerced data equals that of an earlier row is
  therefore a duplicate, and invalid.
\<close>

lemma validateLines_isDuplicate:
  "k < length ls \<Longrightarrow>
   isDuplicate (fst (validateLines parseDate headers validator i ls) ! k) =
     (JSON_stringify (data (fst (validateLines parseDate headers validator i ls) ! k))
        \<in> seenRows validator \<or>
      (\<exists>j<k. JSON_stringify (data (fst (validateLines parseDate headers validator i ls) ! j)) =
              JSON_stringify (data (fst (validateLines parseDate headers validator i ls) ! k))))"
proof (induction ls arbitrary: validator i k)
  case Nil
  then show ?case by simp
next
  case (Cons line rest)
  let ?first = "validateRow parseDate validator (makeRowData headers (parseFields line)) i"
  show ?case
  proof (cases k)
    case 0
    then show ?thesis
      by (simp add: validateLines_Cons validateRow_isDuplicate del: validateLines.simps(2))
  next
    case (Suc k')
    with Cons.prems have "k' < length rest" by simp
    from Cons.IH [OF this, of "snd ?first" "Suc i"] Suc show ?thesis
      by (auto simp: validateLines_Cons validateRow_snd less_Suc_eq_0_disj
               simp del: validateLines.simps(2))
  qed
qed

lemma duplicate_iff_serialization_seen:
  "validateCSV parseDate (Loaded csv) = Inr (results, summary) \<Longrightarrow> k < length results \<Longrightarrow>
   isDuplicate (results ! k) =
     (\<exists>j<k. JSON_stringify (data (results ! j)) = JSON_stringify (data (results ! k)))"
proof -
  assume v: "validateCSV parseDate (Loaded csv) = Inr (results, summary)"
    and k: "k < length results"
  from validateCSV_Inr_retained [OF v] obtain headerLine dataLines
    where r: "retainedLines csv = headerLine # dataLines" by blast
  from v validateCSV_Loaded [OF r, of parseDate]
  have res: "results = fst (validateLines parseDate (parseFields headerLine)
                  (newCSVValidator (parseFields headerLine)) 1 dataLines)"
    by simp
  from k have "k < length dataLines" by (simp add: res length_validateLines)
  from validateLines_isDuplicate [OF this, of parseDate "parseFields headerLine"
      "newCSVValidator (parseFields headerLine)" 1]
  show ?thesis by (simp add: res newCSVValidator_def)
qed

lemma equal_data_is_duplicate:
  "validateCSV parseDate (Loaded csv) = Inr (results, summary) \<Longrightarrow> k < length results \<Longrightarrow>
   j < k \<Longrightarrow> data (results ! j) = data (results ! k) \<Longrightarrow>
   isDuplicate (results ! k) \<and> \<not> isValid (results ! k)"
proof -
  assume v: "validateCSV parseDate (Loaded csv) = Inr (results, summary)"
    and k: "k < length results" and j: "j < k" and d: "data (results ! j) = data (results ! k)"
  from duplicate_iff_serialization_seen [OF v k] j d have dup: "isDuplicate (results ! k)"
    by auto
  from validateCSV_Inr_retained [OF v] obtain headerLine dataLines
    where r: "retainedLines csv = headerLine # dataLines" by blast
  from v validateCSV_Loaded [OF r, of parseDate]
  have res: "results = fst (validateLines parseDate (parseFields headerLine)
                  (newCSVValidator (parseFields headerLine)) 1 dataLines)"
    by simp
  from k have "results ! k \<in> set results" by simp
  with validateLines_valid_iff res
  have "isValid (results ! k) = (errors (results ! k) = [] \<and> \<not> isDuplicate (results ! k))"
    by blast
  with dup show ?thesis by simp
qed

text \<open>
  The raw values \<open>1\<close> and \<open>1\<close> between spaces of a numeric column are both
  coerced to the number 1: the second row is a duplicate of the first.
\<close>

lemma spaced_number_is_duplicate:
  "fst (validateRow parseDate
     (snd (validateRow parseDate (newCSVValidator [''price'']) [''price'' \<mapsto> ''1''] 1))
     [''price'' \<mapsto> '' 1 ''] 2) =
   \<lparr>rowNumber = 2, data = [(''price'', VNumber (Finite 1))], errors = [],
    isDuplicate = True, isValid = False\<rparr>"
  by code_simp

text \<open>
  C2: the seen rows hold serialisations, and \<open>Infinity\<close>, \<open>-Infinity\<close> and a
  missing value all print as \<open>null\<close>. Under the header \<open>id,price\<close> the row \<open>7,\<close>
  after the row \<open>7,Infinity\<close> is reported as a duplicate, although no earlier row
  has its coerced data and it is the first occurrence for the third row; the row
  \<open>7,-Infinity\<close> after \<open>7,Infinity\<close> is reported as a duplicate as well.
\<close>

theorem duplicate_by_serialization:
  "validateCSV parseDate (Loaded ''id,price\<newline>7,Infinity\<newline>7,\<newline>7,'') =
     Inr ([\<lparr>rowNumber = 1,
            data = [(''id'', VString ''7''), (''price'', VNumber PosInfinity)],
            errors = [], isDuplicate = False, isValid = True\<rparr>,
           \<lparr>rowNumber = 2,
            data = [(''id'', VString ''7''), (''price'', VNull)],
            errors = [''price: Missing value''], isDuplicate = True, isValid = False\<rparr>,
           \<lparr>rowNumber = 3,
            data = [(''id'', VString ''7''), (''price'', VNull)],
            errors = [''price: Missing value''], isDuplicate = True, isValid = False\<rparr>],
          \<lparr>totalRows = 3, validRows = 1, duplicateRows = 2, errorRows = 0,
           columnTypes = [(''id'', ''string''), (''price'', ''number'')],
           validationErrors = [''Row 2: price: Missing value'', ''Row 3: price: Missing value''],
           issues = Some [''Row 2: price: Missing value'', ''Row 3: price: Missing value'']\<rparr>) \<and>
   validateCSV parseDate (Loaded ''id,price\<newline>7,Infinity\<newline>7,-Infinity'') =
     Inr ([\<lparr>rowNumber = 1,
            data = [(''id'', VString ''7''), (''price'', VNumber PosInfinity)],
            errors = [], isDuplicate = False, isValid = True\<rparr>,
           \<lparr>rowNumber = 2,
            data = [(''id'', VString ''7''), (''price'', VNumber NegInfinity)],
            errors = [], isDuplicate = True, isValid = False\<rparr>],
          \<lparr>totalRows = 2, validRows = 1, duplicateRows = 1, errorRows = 0,
           columnTypes = [(''id'', ''string''), (''price'', ''number'')],
           validationErrors = [], issues = Some []\<rparr>)"
  by code_simp

end
